theory Spec2Isabelle
  imports Complex_Main
begin

section \<open>The slider of \<open>src/slider.js\<close>\<close>

text \<open>
  The widget is one JavaScript object (class \<open>Slider\<close>) that reads and writes the page
  through jQuery. The model is one record holding the object's fields, the part of the page
  the code reads back, the closure variables of the drag handlers, the pending timeouts, and
  a trace of the calls that leave the controller (style writes on the strip, plugin
  callbacks). Every method is a function from state to state.

  Numbers: \<open>currentSlide\<close>, \<open>defaultIndex\<close> and \<open>slidesPerView\<close> are integers (the data
  model of the widget; \<open>++\<close> and \<open>--\<close> keep them so, as long as they are exact in a
  double); pixel and millisecond quantities are
  reals. A jQuery getter on an empty selection returns \<open>undefined\<close>, and arithmetic on it
  gives \<open>NaN\<close>: such values are \<open>None\<close>, and every comparison with them is false.

  The page: the \<open>.slider-slide\<close> elements are a list of their outer widths as the browser
  reports them (jQuery's \<open>outerWidth()\<close>: padding and border, no margin; the code puts
  \<open>spaceBetween\<close> into the margins). There is one \<open>.slider-wrapper\<close>, one
  \<open>.slider-pagination\<close> and one button of each kind; writes to them that the code never
  reads back are events of the trace. The \<open>direction\<close> field is stored and never read.
  The registered plugins are objects made by the two factories of the source, with every
  option defined; what \<open>init\<close> of a Pagination plugin does when its item class is
  \<open>undefined\<close> is part of \<open>paginationInit\<close>.
\<close>

subsection \<open>Plugins\<close>

text \<open>
  The options of the two built-in plugin factories, \<open>Slider.Pagination\<close> and
  \<open>Slider.Navigation\<close>, of a registered plugin: all options defined.
\<close>

record pagination_options =
  itemClass :: string
  itemActiveClass :: string
  numbering :: bool
  clickable :: bool

record navigation_options =
  buttonDisabledClass :: string

datatype plugin = Pagination pagination_options | Navigation navigation_options

text \<open>
  What \<open>Slider.Pagination\<close> binds by destructuring its argument. The default object stands
  in for an omitted argument only: a property missing from a given argument leaves its
  variable \<open>undefined\<close> (\<open>None\<close> for the two class names; falsy for the two flags).
\<close>

record pagination_closure =
  boundItemClass :: "string option"
  boundItemActiveClass :: "string option"
  boundNumbering :: bool
  boundClickable :: bool


text \<open>The closure of a registered plugin.\<close>

definition closure :: "pagination_options \<Rightarrow> pagination_closure" where
  "closure opts =
     \<lparr>boundItemClass = Some (itemClass opts),
      boundItemActiveClass = Some (itemActiveClass opts),
      boundNumbering = numbering opts, boundClickable = clickable opts\<rparr>"

subsection \<open>The page\<close>

text \<open>
  A pagination marker: the \<open>span\<close> appended to \<open>.slider-pagination\<close>. \<open>mclass\<close> is the class
  it was created with, \<open>mlabel\<close> its text (\<open>i + 1\<close>, or nothing without numbering),
  \<open>mclasses\<close> the classes added later by \<open>addClass\<close>, \<open>mclicks\<close> the click handlers bound
  to it, each the selector and the active class of the plugin that bound it and the index
  it jumps to.
\<close>

record marker =
  mclass :: string
  mlabel :: "nat option"
  mclasses :: "string list"
  mclicks :: "(string \<times> string option \<times> nat) list"

text \<open>What the controller sends out: style writes and plugin callbacks, in call order.\<close>

datatype event =
    SlideStyle nat "real option" real
  | WrapperMargin real
  | Transition real
  | Transform "real option"
  | Init plugin
  | Change plugin

datatype js_error = RangeError | TypeError

subsection \<open>The state\<close>

record slider =
  slidesPerView :: int
  defaultIndex :: int
  spaceBetween :: real
  speed :: real
  currentSlide :: int
  autoPlay :: bool
  duration :: real
  loop :: bool
  plugins :: "plugin list"
  direction :: string
  draggable :: bool
  \<comment> \<open>the page: outer widths of the \<open>.slider-slide\<close> elements, width of \<open>.slider\<close>,
      the markers, the classes added to the two buttons, the click handlers on them\<close>
  slides :: "real list"
  sliderWidth :: "real option"
  markers :: "marker list"
  prevClasses :: "string list"
  nextClasses :: "string list"
  prevClicks :: nat
  nextClicks :: nat
  \<comment> \<open>the closure of the drag handlers\<close>
  dragBound :: bool
  isPressed :: bool
  startPos :: real
  distance :: real
  \<comment> \<open>delays of the pending \<open>setTimeout\<close> calls, and the trace\<close>
  timers :: "real list"
  trace :: "event list"

text \<open>\<open>$('.slider-slide').length\<close> and \<open>$('.slider-slide').outerWidth()\<close> (of the first
  element; \<open>undefined\<close> when there is none).\<close>

definition slideCount :: "slider \<Rightarrow> int" where
  "slideCount s = int (length (slides s))"

definition outerWidth :: "slider \<Rightarrow> real option" where
  "outerWidth s = (case slides s of [] \<Rightarrow> None | w # _ \<Rightarrow> Some w)"

text \<open>\<open>($('.slider-slide').outerWidth() + this.spaceBetween)\<close>: one slide and its gap.\<close>

definition slideStep :: "slider \<Rightarrow> real option" where
  "slideStep s = map_option (\<lambda>w. w + spaceBetween s) (outerWidth s)"

text \<open>The offset written as \<open>translateX(-...px)\<close>: slide step times \<open>currentSlide\<close>.\<close>

definition slideOffset :: "slider \<Rightarrow> real option" where
  "slideOffset s = map_option (\<lambda>w. w * real_of_int (currentSlide s)) (slideStep s)"

definition emit :: "event list \<Rightarrow> slider \<Rightarrow> slider" where
  "emit es s = s\<lparr>trace := trace s @ es\<rparr>"

subsection \<open>Pagination plugin\<close>

definition addClass :: "string \<Rightarrow> string list \<Rightarrow> string list" where
  "addClass c cs = (if c \<in> set cs then cs else cs @ [c])"

definition removeClass :: "string \<Rightarrow> string list \<Rightarrow> string list" where
  "removeClass c cs = removeAll c cs"

text \<open>
  \<open>getSelectorFromClass\<close>: \<open>cl.replace(/\s/g, '.')\<close> behind a dot. On \<open>undefined\<close> the
  property read \<open>cl.replace\<close> throws a \<open>TypeError\<close>. White space is the ASCII one.
\<close>

definition isSpace :: "char \<Rightarrow> bool" where
  "isSpace c = (c \<in> set [CHR '' '', CHR 0x09, CHR 0x0A, CHR 0x0B, CHR 0x0C, CHR 0x0D])"

definition itemSelector :: "string \<Rightarrow> string" where
  "itemSelector cl = CHR ''.'' # map (\<lambda>c. if isSpace c then CHR ''.'' else c) cl"

definition getSelectorFromClass :: "string option \<Rightarrow> js_error + string" where
  "getSelectorFromClass cl = (case cl of None \<Rightarrow> Inl TypeError | Some c \<Rightarrow> Inr (itemSelector c))"

text \<open>
  An element is selected when the selector is the one of the class it was created with
  (exact for class names of one token).
\<close>

definition selects :: "string \<Rightarrow> marker \<Rightarrow> bool" where
  "selects sel m = (itemSelector (mclass m) = sel)"

text \<open>
  The loop of \<open>changeActiveState\<close>: \<open>each((i, el) => ...)\<close> over the selected elements;
  \<open>i\<close> counts the selected elements only. jQuery's \<open>addClass\<close> and \<open>removeClass\<close> do
  nothing when given \<open>undefined\<close>.
\<close>

fun eachMarker :: "string \<Rightarrow> string option \<Rightarrow> int \<Rightarrow> nat \<Rightarrow> marker list \<Rightarrow> marker list" where
  "eachMarker sel active cur i [] = []"
| "eachMarker sel active cur i (m # ms) =
     (if selects sel m
      then (case active of
              None \<Rightarrow> m
            | Some a \<Rightarrow>
                if cur = int i
                then m\<lparr>mclasses := addClass a (mclasses m)\<rparr>
                else m\<lparr>mclasses := removeClass a (mclasses m)\<rparr>)
           # eachMarker sel active cur (Suc i) ms
      else m # eachMarker sel active cur i ms)"

definition setActive :: "string \<Rightarrow> string option \<Rightarrow> slider \<Rightarrow> slider" where
  "setActive sel active s = s\<lparr>markers := eachMarker sel active (currentSlide s) 0 (markers s)\<rparr>"

text \<open>\<open>changeActiveState\<close>: the selector is built first, then the loop runs.\<close>

definition changeActiveState :: "pagination_closure \<Rightarrow> slider \<Rightarrow> js_error + slider" where
  "changeActiveState c s =
     (case getSelectorFromClass (boundItemClass c) of
        Inl e \<Rightarrow> Inl e
      | Inr sel \<Rightarrow> Inr (setActive sel (boundItemActiveClass c) s))"

text \<open>The markup \<open><span class='${itemClass}'>\<close>: an undefined class is written \<open>undefined\<close>.\<close>

definition newMarker :: "pagination_closure \<Rightarrow> nat \<Rightarrow> marker" where
  "newMarker c i =
     \<lparr>mclass = (case boundItemClass c of None \<Rightarrow> ''undefined'' | Some cl \<Rightarrow> cl),
      mlabel = (if boundNumbering c then Some (i + 1) else None),
      mclasses = [],
      mclicks = []\<rparr>"

text \<open>
  The body of \<open>forEach((_, i) => ...)\<close>, once per index: append, then
  \<open>changeActiveState\<close>; an exception ends the loop.
\<close>

fun appendMarkers :: "pagination_closure \<Rightarrow> nat list \<Rightarrow> slider \<Rightarrow> js_error + slider" where
  "appendMarkers c [] s = Inr s"
| "appendMarkers c (i # is) s =
     (case changeActiveState c (s\<lparr>markers := markers s @ [newMarker c i]\<rparr>) of
        Inl e \<Rightarrow> Inl e
      | Inr s' \<Rightarrow> appendMarkers c is s')"

fun bindClicks :: "string \<Rightarrow> string option \<Rightarrow> nat \<Rightarrow> marker list \<Rightarrow> marker list" where
  "bindClicks sel active i [] = []"
| "bindClicks sel active i (m # ms) =
     (if selects sel m
      then m\<lparr>mclicks := mclicks m @ [(sel, active, i)]\<rparr> # bindClicks sel active (Suc i) ms
      else m # bindClicks sel active i ms)"

text \<open>
  \<open>Array(n)\<close> with a number \<open>n\<close> that is not an integer in \<open>[0, 2^32 - 1]\<close> throws
  \<open>RangeError: Invalid array length\<close>; nothing of \<open>init\<close> has run by then. With
  \<open>clickable\<close> the selector is built once more for the binding.
\<close>

definition markerCount :: "slider \<Rightarrow> int" where
  "markerCount s = slideCount s - slidesPerView s + 1"

definition paginationInit :: "pagination_closure \<Rightarrow> slider \<Rightarrow> js_error + slider" where
  "paginationInit c s =
     (let n = markerCount s in
      if n < 0 \<or> 4294967295 < n then Inl RangeError
      else
        case appendMarkers c [0 ..< nat n] s of
          Inl e \<Rightarrow> Inl e
        | Inr s1 \<Rightarrow>
            if boundClickable c then
              (case getSelectorFromClass (boundItemClass c) of
                 Inl e \<Rightarrow> Inl e
               | Inr sel \<Rightarrow>
                   Inr (s1\<lparr>markers := bindClicks sel (boundItemActiveClass c) 0 (markers s1)\<rparr>))
            else Inr s1)"

subsection \<open>Navigation plugin\<close>

definition changeDisabledState :: "navigation_options \<Rightarrow> slider \<Rightarrow> slider" where
  "changeDisabledState opts s =
     (if \<not> loop s then
        s\<lparr>prevClasses :=
             (if currentSlide s = 0
              then addClass (buttonDisabledClass opts) (prevClasses s)
              else removeClass (buttonDisabledClass opts) (prevClasses s)),
          nextClasses :=
             (if currentSlide s = slideCount s - slidesPerView s
              then addClass (buttonDisabledClass opts) (nextClasses s)
              else removeClass (buttonDisabledClass opts) (nextClasses s))\<rparr>
      else s)"

definition navigationInit :: "navigation_options \<Rightarrow> slider \<Rightarrow> slider" where
  "navigationInit opts s =
     changeDisabledState opts (s\<lparr>nextClicks := Suc (nextClicks s), prevClicks := Suc (prevClicks s)\<rparr>)"

subsection \<open>The controller\<close>

text \<open>
  \<open>plugin.change(this)\<close> and \<open>plugin.init(this)\<close>, each recorded in the trace. The item
  class of a registered Pagination plugin is defined, so the selector of its
  \<open>changeActiveState\<close> is built and the call is the loop.
\<close>

fun pluginChange :: "plugin \<Rightarrow> slider \<Rightarrow> slider" where
  "pluginChange (Pagination opts) s =
     setActive (itemSelector (itemClass opts)) (Some (itemActiveClass opts))
       (emit [Change (Pagination opts)] s)"
| "pluginChange (Navigation opts) s = changeDisabledState opts (emit [Change (Navigation opts)] s)"

fun pluginInit :: "plugin \<Rightarrow> slider \<Rightarrow> js_error + slider" where
  "pluginInit (Pagination opts) s =
     paginationInit (closure opts) (emit [Init (Pagination opts)] s)"
| "pluginInit (Navigation opts) s = Inr (navigationInit opts (emit [Init (Navigation opts)] s))"

fun changeAll :: "plugin list \<Rightarrow> slider \<Rightarrow> slider" where
  "changeAll [] s = s"
| "changeAll (p # ps) s = changeAll ps (pluginChange p s)"

fun initAll :: "plugin list \<Rightarrow> slider \<Rightarrow> js_error + slider" where
  "initAll [] s = Inr s"
| "initAll (p # ps) s = (case pluginInit p s of Inl e \<Rightarrow> Inl e | Inr s' \<Rightarrow> initAll ps s')"

definition handleChangeSlide :: "slider \<Rightarrow> slider" where
  "handleChangeSlide s =
     changeAll (plugins s) (emit [Transition (speed s), Transform (slideOffset s)] s)"

definition changeSlide :: "int \<Rightarrow> slider \<Rightarrow> slider" where
  "changeSlide index s = handleChangeSlide (s\<lparr>currentSlide := index\<rparr>)"

definition nextSlide :: "slider \<Rightarrow> slider" where
  "nextSlide s =
     handleChangeSlide
       (if loop s then
          (if currentSlide s < slideCount s - slidesPerView s
           then s\<lparr>currentSlide := currentSlide s + 1\<rparr>
           else s\<lparr>currentSlide := 0\<rparr>)
        else
          (if currentSlide s < slideCount s - slidesPerView s
           then s\<lparr>currentSlide := currentSlide s + 1\<rparr>
           else s))"

definition previousSlide :: "slider \<Rightarrow> slider" where
  "previousSlide s =
     handleChangeSlide
       (if loop s then
          (if currentSlide s > 0
           then s\<lparr>currentSlide := currentSlide s - 1\<rparr>
           else s\<lparr>currentSlide := slideCount s - slidesPerView s\<rparr>)
        else
          (if currentSlide s > 0
           then s\<lparr>currentSlide := currentSlide s - 1\<rparr>
           else s))"

subsection \<open>Auto-play\<close>

text \<open>
  \<open>#handleAutoPlay\<close> only schedules: \<open>setTimeout(callback, this.duration)\<close>. The callback is
  \<open>autoPlayCallback\<close>; \<open>fireTimer\<close> is the event loop running the oldest pending timeout.
\<close>

definition handleAutoPlay :: "slider \<Rightarrow> slider" where
  "handleAutoPlay s = s\<lparr>timers := timers s @ [duration s]\<rparr>"

definition autoPlayCallback :: "slider \<Rightarrow> slider" where
  "autoPlayCallback s =
     (if autoPlay s then
        handleAutoPlay
          (if currentSlide s < slideCount s - slidesPerView s
           then nextSlide s
           else changeSlide 0 s)
      else s)"

definition fireTimer :: "slider \<Rightarrow> slider" where
  "fireTimer s = (case timers s of [] \<Rightarrow> s | _ # ts \<Rightarrow> autoPlayCallback (s\<lparr>timers := ts\<rparr>))"

subsection \<open>Drag handlers\<close>

text \<open>
  \<open>distance > slideWidth / 3\<close> with \<open>slideWidth = $('.slider-slide').outerWidth()\<close>; with no
  slide the width is \<open>undefined\<close> and the comparison is false.
\<close>

definition exceedsThird :: "real \<Rightarrow> real option \<Rightarrow> bool" where
  "exceedsThird d slideWidth = (case slideWidth of None \<Rightarrow> False | Some w \<Rightarrow> d > w / 3)"

text \<open>The \<open>if\<close> / \<open>else if\<close> / \<open>else\<close> of the \<open>mouseup\<close> handler: which branch is taken.\<close>

datatype release = Advance | Retreat | SnapBack

definition releaseBranch :: "slider \<Rightarrow> release" where
  "releaseBranch s =
     (let slideWidth = outerWidth s in
      if exceedsThird (distance s) slideWidth \<and>
         (loop s \<or> currentSlide s < slideCount s - slidesPerView s)
      then Advance
      else if exceedsThird (- distance s) slideWidth \<and> (loop s \<or> currentSlide s > 0)
      then Retreat
      else SnapBack)"

definition mouseup :: "slider \<Rightarrow> slider" where
  "mouseup s =
     (let s1 = (case releaseBranch s of
                  Advance \<Rightarrow> nextSlide s
                | Retreat \<Rightarrow> previousSlide s
                | SnapBack \<Rightarrow> emit [Transform (slideOffset s)] s)
      in s1\<lparr>isPressed := False, startPos := 0, distance := 0\<rparr>)"

definition mousedown :: "real \<Rightarrow> slider \<Rightarrow> slider" where
  "mousedown pageX s = s\<lparr>startPos := pageX, isPressed := True\<rparr>"

text \<open>\<open>translateX(${-(offset + distance)}px)\<close>: the strip is moved left by offset plus distance.\<close>

definition mousemove :: "real \<Rightarrow> slider \<Rightarrow> slider" where
  "mousemove pageX s =
     (if \<not> isPressed s then s
      else
        let s1 = s\<lparr>distance := startPos s - pageX\<rparr>
        in emit [Transform (map_option (\<lambda>off. off + distance s1) (slideOffset s1))] s1)"

subsection \<open>Clicks bound by the plugins\<close>

fun runClicks :: "(string \<times> string option \<times> nat) list \<Rightarrow> slider \<Rightarrow> slider" where
  "runClicks [] s = s"
| "runClicks ((sel, active, i) # hs) s =
     runClicks hs
       (let s1 = setActive sel active (changeSlide (int i) s)
        in if autoPlay s1 then s1\<lparr>autoPlay := False\<rparr> else s1)"

definition clickMarker :: "nat \<Rightarrow> slider \<Rightarrow> slider" where
  "clickMarker k s = (if k < length (markers s) then runClicks (mclicks (markers s ! k)) s else s)"

definition clickNext :: "slider \<Rightarrow> slider" where
  "clickNext s = (nextSlide ^^ nextClicks s) s"

definition clickPrev :: "slider \<Rightarrow> slider" where
  "clickPrev s = (previousSlide ^^ prevClicks s) s"

subsection \<open>Initialisation\<close>

text \<open>
  The flex basis \<open>($('.slider').width() - spaceBetween * (slidesPerView - 1)) / slidesPerView\<close>;
  not a finite number when there is no \<open>.slider\<close> or \<open>slidesPerView\<close> is \<open>0\<close>.
\<close>

definition flexBasis :: "slider \<Rightarrow> real option" where
  "flexBasis s =
     (case sliderWidth s of
        None \<Rightarrow> None
      | Some w \<Rightarrow>
          if slidesPerView s = 0 then None
          else Some ((w - spaceBetween s * (real_of_int (slidesPerView s) - 1))
                     / real_of_int (slidesPerView s)))"

definition init :: "slider \<Rightarrow> js_error + slider" where
  "init s =
     (let s1 = emit (map (\<lambda>i. SlideStyle i (flexBasis s) (spaceBetween s / 2))
                         [0 ..< length (slides s)]) s;
          s2 = emit [WrapperMargin (spaceBetween s / 2), Transform (slideOffset s1)] s1;
          s3 = (if draggable s2 then s2\<lparr>dragBound := True\<rparr> else s2)
      in case initAll (plugins s3) s3 of
           Inl e \<Rightarrow> Inl e
         | Inr s4 \<Rightarrow> Inr (if autoPlay s4 then handleAutoPlay s4 else s4))"

text \<open>The constructor: the fields are the options after defaulting; then \<open>this.init()\<close>.\<close>

definition Slider :: "slider \<Rightarrow> js_error + slider" where
  "Slider s = init (s\<lparr>currentSlide := defaultIndex s\<rparr>)"

subsection \<open>Sequences of navigation calls\<close>

datatype nav = Next | Previous

fun navigate :: "nav \<Rightarrow> slider \<Rightarrow> slider" where
  "navigate Next s = nextSlide s"
| "navigate Previous s = previousSlide s"

fun navigateAll :: "nav list \<Rightarrow> slider \<Rightarrow> slider" where
  "navigateAll [] s = s"
| "navigateAll (c # cs) s = navigateAll cs (navigate c s)"

text \<open>The invariant of the index without looping, to be proved of \<open>navigateAll\<close>.\<close>

definition inBounds :: "slider \<Rightarrow> bool" where
  "inBounds s = (0 \<le> currentSlide s \<and> currentSlide s \<le> max 0 (slideCount s - slidesPerView s))"

subsection \<open>Example pages\<close>

definition noPage :: slider where
  "noPage =
     \<lparr>slidesPerView = 3, defaultIndex = 0, spaceBetween = 20, speed = 500, currentSlide = 0,
      autoPlay = False, duration = 5000, loop = False, plugins = [],
      direction = ''horizontal'', draggable = True,
      slides = [], sliderWidth = Some 940, markers = [], prevClasses = [], nextClasses = [],
      prevClicks = 0, nextClicks = 0, dragBound = False, isPressed = False, startPos = 0,
      distance = 0, timers = [], trace = []\<rparr>"

definition defaultPagination :: pagination_options where
  "defaultPagination =
     \<lparr>itemClass = ''slider-pagination-item'',
      itemActiveClass = ''slider-pagination-item--active'',
      numbering = True, clickable = True\<rparr>"

definition defaultNavigation :: navigation_options where
  "defaultNavigation = \<lparr>buttonDisabledClass = ''slider-button--disabled''\<rparr>"

definition sixSlides :: slider where
  "sixSlides =
     noPage\<lparr>slides := [300, 300, 300, 300, 300, 300],
            plugins := [Pagination defaultPagination, Navigation defaultNavigation]\<rparr>"

definition twoSlides :: slider where
  "twoSlides = noPage\<lparr>slides := [300, 300], plugins := [Navigation defaultNavigation]\<rparr>"

subsection \<open>What the plugin callbacks leave alone\<close>

text \<open>
  The callbacks of the two plugins write markers and button classes only; the fields below
  are the same before and after.
\<close>

definition frame :: "slider \<Rightarrow> slider \<Rightarrow> bool" where
  "frame s s' =
     (slidesPerView s' = slidesPerView s \<and> defaultIndex s' = defaultIndex s \<and>
      spaceBetween s' = spaceBetween s \<and> speed s' = speed s \<and>
      currentSlide s' = currentSlide s \<and> autoPlay s' = autoPlay s \<and>
      duration s' = duration s \<and> loop s' = loop s \<and> plugins s' = plugins s \<and>
      slides s' = slides s \<and> timers s' = timers s \<and>
      isPressed s' = isPressed s \<and> startPos s' = startPos s \<and> distance s' = distance s)"

section \<open>Properties\<close>

subsection \<open>Frame and trace of the change protocol\<close>

lemma frame_refl: "frame s s"
  by (simp add: frame_def)

lemma frame_trans: "frame s t \<Longrightarrow> frame t u \<Longrightarrow> frame s u"
  by (simp add: frame_def)

lemma frame_emit: "frame s (emit es s)"
  by (simp add: frame_def emit_def)

lemma trace_emit: "trace (emit es s) = trace s @ es"
  by (simp add: emit_def)

lemma frame_setActive: "frame s (setActive sel active s)"
  by (simp add: frame_def setActive_def)

lemma trace_setActive: "trace (setActive sel active s) = trace s"
  by (simp add: setActive_def)

lemma changeActiveState_closure:
  "changeActiveState (closure opts) s =
     Inr (setActive (itemSelector (itemClass opts)) (Some (itemActiveClass opts)) s)"
  by (simp add: changeActiveState_def getSelectorFromClass_def closure_def)

lemma frame_changeDisabledState: "frame s (changeDisabledState opts s)"
  by (simp add: frame_def changeDisabledState_def)

lemma trace_changeDisabledState: "trace (changeDisabledState opts s) = trace s"
  by (simp add: changeDisabledState_def)

lemma frame_pluginChange: "frame s (pluginChange p s)"
  by (cases p)
     (auto intro: frame_trans [OF frame_emit] frame_setActive frame_changeDisabledState)

lemma trace_pluginChange: "trace (pluginChange p s) = trace s @ [Change p]"
  by (cases p) (simp_all add: trace_setActive trace_changeDisabledState trace_emit)

lemma frame_changeAll: "frame s (changeAll ps s)"
proof (induction ps arbitrary: s)
  case Nil
  show ?case by (simp add: frame_refl)
next
  case (Cons p ps)
  have "frame s (pluginChange p s)" by (rule frame_pluginChange)
  moreover have "frame (pluginChange p s) (changeAll ps (pluginChange p s))" by (rule Cons.IH)
  ultimately show ?case by (simp add: frame_trans)
qed

lemma trace_changeAll: "trace (changeAll ps s) = trace s @ map Change ps"
  by (induction ps arbitrary: s) (simp_all add: trace_pluginChange)

lemma frame_handleChangeSlide: "frame s (handleChangeSlide s)"
proof -
  let ?t = "emit [Transition (speed s), Transform (slideOffset s)] s"
  have "frame s ?t" by (rule frame_emit)
  moreover have "frame ?t (changeAll (plugins s) ?t)" by (rule frame_changeAll)
  ultimately show ?thesis unfolding handleChangeSlide_def by (rule frame_trans)
qed

lemma trace_handleChangeSlide:
  "trace (handleChangeSlide s) =
     trace s @ [Transition (speed s), Transform (slideOffset s)] @ map Change (plugins s)"
  by (simp add: handleChangeSlide_def trace_changeAll trace_emit)

lemma frame_slideCount: "frame s s' \<Longrightarrow> slideCount s' = slideCount s"
  by (simp add: frame_def slideCount_def)

lemma handleChangeSlide_fields:
  "currentSlide (handleChangeSlide s) = currentSlide s"
  "slidesPerView (handleChangeSlide s) = slidesPerView s"
  "slideCount (handleChangeSlide s) = slideCount s"
  "loop (handleChangeSlide s) = loop s"
  "plugins (handleChangeSlide s) = plugins s"
  "timers (handleChangeSlide s) = timers s"
  "autoPlay (handleChangeSlide s) = autoPlay s"
  "duration (handleChangeSlide s) = duration s"
  using frame_handleChangeSlide [of s] by (simp_all add: frame_def slideCount_def)

lemma slideOffset_currentSlide:
  "slideOffset (s\<lparr>currentSlide := i\<rparr>) =
     map_option (\<lambda>w. (w + spaceBetween s) * real_of_int i) (outerWidth s)"
  by (simp add: slideOffset_def slideStep_def outerWidth_def option.map_comp comp_def
           split: list.splits)

lemma slideCount_currentSlide: "slideCount (s\<lparr>currentSlide := i\<rparr>) = slideCount s"
  by (simp add: slideCount_def)

lemma loop_nextSlide: "loop (nextSlide s) = loop s"
  by (simp add: nextSlide_def handleChangeSlide_fields)

lemma loop_previousSlide: "loop (previousSlide s) = loop s"
  by (simp add: previousSlide_def handleChangeSlide_fields)

lemma slidesPerView_nextSlide: "slidesPerView (nextSlide s) = slidesPerView s"
  by (simp add: nextSlide_def handleChangeSlide_fields)

lemma slidesPerView_previousSlide: "slidesPerView (previousSlide s) = slidesPerView s"
  by (simp add: previousSlide_def handleChangeSlide_fields)

lemma slideCount_nextSlide: "slideCount (nextSlide s) = slideCount s"
  by (simp add: nextSlide_def handleChangeSlide_fields slideCount_currentSlide)

lemma slideCount_previousSlide: "slideCount (previousSlide s) = slideCount s"
  by (simp add: previousSlide_def handleChangeSlide_fields slideCount_currentSlide)

lemma currentSlide_nextSlide:
  "currentSlide (nextSlide s) =
     (if currentSlide s < slideCount s - slidesPerView s then currentSlide s + 1
      else if loop s then 0 else currentSlide s)"
  by (simp add: nextSlide_def handleChangeSlide_fields)

lemma currentSlide_previousSlide:
  "currentSlide (previousSlide s) =
     (if currentSlide s > 0 then currentSlide s - 1
      else if loop s then slideCount s - slidesPerView s else currentSlide s)"
  by (simp add: previousSlide_def handleChangeSlide_fields)

lemma trace_changeSlide:
  "trace (changeSlide i s) =
     trace s @ [Transition (speed s),
                Transform (map_option (\<lambda>w. (w + spaceBetween s) * real_of_int i) (outerWidth s))]
             @ map Change (plugins s)"
  by (simp add: changeSlide_def trace_handleChangeSlide slideOffset_currentSlide)

lemma currentSlide_changeSlide: "currentSlide (changeSlide i s) = i"
  by (simp add: changeSlide_def handleChangeSlide_fields)

lemma nextSlide_changeSlide:
  "nextSlide s =
     changeSlide (if currentSlide s < slideCount s - slidesPerView s then currentSlide s + 1
                  else if loop s then 0 else currentSlide s) s"
  by (simp add: nextSlide_def changeSlide_def)

lemma previousSlide_changeSlide:
  "previousSlide s =
     changeSlide (if currentSlide s > 0 then currentSlide s - 1
                  else if loop s then slideCount s - slidesPerView s else currentSlide s) s"
  by (simp add: previousSlide_def changeSlide_def)

text \<open>The example pages, field by field.\<close>

lemma sixSlides_fields:
  "slideCount sixSlides = 6" "slidesPerView sixSlides = 3" "currentSlide sixSlides = 0"
  "loop sixSlides = False" "speed sixSlides = 500" "spaceBetween sixSlides = 20"
  "plugins sixSlides = [Pagination defaultPagination, Navigation defaultNavigation]"
  "trace sixSlides = []" "outerWidth sixSlides = Some 300" "autoPlay sixSlides = False"
  "timers sixSlides = []" "duration sixSlides = 5000" "markers sixSlides = []"
  "distance sixSlides = 0"
  by (simp_all add: sixSlides_def noPage_def slideCount_def outerWidth_def)

lemma twoSlides_fields:
  "slideCount twoSlides = 2" "slidesPerView twoSlides = 3" "currentSlide twoSlides = 0"
  "loop twoSlides = False" "speed twoSlides = 500" "spaceBetween twoSlides = 20"
  "plugins twoSlides = [Navigation defaultNavigation]"
  "trace twoSlides = []" "outerWidth twoSlides = Some 300" "autoPlay twoSlides = False"
  "timers twoSlides = []" "duration twoSlides = 5000" "markers twoSlides = []"
  by (simp_all add: twoSlides_def noPage_def slideCount_def outerWidth_def)

lemma update_fields:
  "slideCount (s\<lparr>currentSlide := i\<rparr>) = slideCount s"
  "slideCount (s\<lparr>loop := b\<rparr>) = slideCount s"
  "slideCount (s\<lparr>autoPlay := b\<rparr>) = slideCount s"
  "slideCount (s\<lparr>timers := ts\<rparr>) = slideCount s"
  "slideCount (s\<lparr>distance := d\<rparr>) = slideCount s"
  "slideCount (s\<lparr>plugins := ps\<rparr>) = slideCount s"
  "outerWidth (s\<lparr>currentSlide := i\<rparr>) = outerWidth s"
  "outerWidth (s\<lparr>loop := b\<rparr>) = outerWidth s"
  "outerWidth (s\<lparr>autoPlay := b\<rparr>) = outerWidth s"
  "outerWidth (s\<lparr>timers := ts\<rparr>) = outerWidth s"
  "outerWidth (s\<lparr>distance := d\<rparr>) = outerWidth s"
  "outerWidth (s\<lparr>plugins := ps\<rparr>) = outerWidth s"
  by (simp_all add: slideCount_def outerWidth_def)

subsection \<open>The navigation calls\<close>

text \<open>
  Claim C2. For every state, \<open>nextSlide\<close> adds exactly 1 to \<open>currentSlide\<close> when
  \<open>currentSlide < slideCount - slidesPerView\<close>; otherwise it leaves the index unchanged
  without \<open>loop\<close> and sets it to \<open>0\<close> with \<open>loop\<close>. In every case it runs the change
  protocol: it is \<open>changeSlide\<close> to that index, and the trace grows by the transition, the
  transform to the new offset, and one \<open>Change\<close> per registered plugin, in order.
\<close>

theorem nextSlide_index_and_protocol:
  "(let i = (if currentSlide s < slideCount s - slidesPerView s then currentSlide s + 1
             else if loop s then 0 else currentSlide s)
    in currentSlide (nextSlide s) = i \<and>
       nextSlide s = changeSlide i s \<and>
       trace (nextSlide s) =
         trace s @ [Transition (speed s),
                    Transform (map_option (\<lambda>w. (w + spaceBetween s) * real_of_int i)
                                 (outerWidth s))]
                 @ map Change (plugins s))"
  unfolding Let_def
  by (simp only: nextSlide_changeSlide [symmetric] currentSlide_nextSlide
        trace_changeSlide [symmetric] simp_thms)

theorem nextSlide_index_and_protocol_witness:
  "currentSlide (nextSlide sixSlides) = 1 \<and>
   currentSlide (nextSlide (sixSlides\<lparr>currentSlide := 3\<rparr>)) = 3 \<and>
   currentSlide (nextSlide (sixSlides\<lparr>currentSlide := 3, loop := True\<rparr>)) = 0 \<and>
   trace (nextSlide sixSlides) =
     [Transition 500, Transform (Some 320),
      Change (Pagination defaultPagination), Change (Navigation defaultNavigation)]"
proof -
  note a = nextSlide_index_and_protocol [of sixSlides, unfolded Let_def]
  note b = nextSlide_index_and_protocol [of "sixSlides\<lparr>currentSlide := 3\<rparr>", unfolded Let_def]
  note c = nextSlide_index_and_protocol
             [of "sixSlides\<lparr>currentSlide := 3, loop := True\<rparr>", unfolded Let_def]
  show ?thesis
    using a [THEN conjunct1] b [THEN conjunct1] c [THEN conjunct1]
          a [THEN conjunct2, THEN conjunct2]
    by (simp add: sixSlides_fields update_fields)
qed

text \<open>
  Claim C3. For every state, \<open>previousSlide\<close> subtracts exactly 1 from \<open>currentSlide\<close> when
  \<open>currentSlide > 0\<close>; otherwise it leaves the index unchanged without \<open>loop\<close> and sets
  it to \<open>slideCount - slidesPerView\<close> with \<open>loop\<close>. In every case it runs the change
  protocol.
\<close>

theorem previousSlide_index_and_protocol:
  "(let i = (if currentSlide s > 0 then currentSlide s - 1
             else if loop s then slideCount s - slidesPerView s else currentSlide s)
    in currentSlide (previousSlide s) = i \<and>
       previousSlide s = changeSlide i s \<and>
       trace (previousSlide s) =
         trace s @ [Transition (speed s),
                    Transform (map_option (\<lambda>w. (w + spaceBetween s) * real_of_int i)
                                 (outerWidth s))]
                 @ map Change (plugins s))"
  unfolding Let_def
  by (simp only: previousSlide_changeSlide [symmetric] currentSlide_previousSlide
        trace_changeSlide [symmetric] simp_thms)

theorem previousSlide_index_and_protocol_witness:
  "currentSlide (previousSlide (sixSlides\<lparr>currentSlide := 2\<rparr>)) = 1 \<and>
   currentSlide (previousSlide sixSlides) = 0 \<and>
   currentSlide (previousSlide (sixSlides\<lparr>loop := True\<rparr>)) = 3 \<and>
   trace (previousSlide (sixSlides\<lparr>currentSlide := 2\<rparr>)) =
     [Transition 500, Transform (Some 320),
      Change (Pagination defaultPagination), Change (Navigation defaultNavigation)]"
proof -
  note a = previousSlide_index_and_protocol [of "sixSlides\<lparr>currentSlide := 2\<rparr>", unfolded Let_def]
  note b = previousSlide_index_and_protocol [of sixSlides, unfolded Let_def]
  note c = previousSlide_index_and_protocol [of "sixSlides\<lparr>loop := True\<rparr>", unfolded Let_def]
  show ?thesis
    using a [THEN conjunct1] b [THEN conjunct1] c [THEN conjunct1]
          a [THEN conjunct2, THEN conjunct2]
    by (simp add: sixSlides_fields update_fields)
qed

text \<open>
  Claim C5. For every integer \<open>index\<close>, in range or not, \<open>changeSlide index\<close> sets
  \<open>currentSlide\<close> to exactly \<open>index\<close> (no clamping; the function is total, it has no error
  result) and then runs the change protocol: the view update and one \<open>Change\<close> per
  registered plugin.
\<close>

theorem changeSlide_sets_index:
  "currentSlide (changeSlide index s) = index \<and>
   changeSlide index s = handleChangeSlide (s\<lparr>currentSlide := index\<rparr>) \<and>
   trace (changeSlide index s) =
     trace s @ [Transition (speed s),
                Transform (map_option (\<lambda>w. (w + spaceBetween s) * real_of_int index)
                             (outerWidth s))]
             @ map Change (plugins s)"
  by (simp add: currentSlide_changeSlide trace_changeSlide) (simp add: changeSlide_def)

theorem changeSlide_sets_index_witness:
  "currentSlide (changeSlide 100 sixSlides) = 100 \<and>
   currentSlide (changeSlide (- 7) sixSlides) = - 7 \<and>
   trace (changeSlide 100 sixSlides) =
     [Transition 500, Transform (Some 32000),
      Change (Pagination defaultPagination), Change (Navigation defaultNavigation)]"
  using changeSlide_sets_index [of 100 sixSlides, THEN conjunct1]
        changeSlide_sets_index [of "- 7" sixSlides, THEN conjunct1]
        changeSlide_sets_index [of 100 sixSlides, THEN conjunct2, THEN conjunct2]
  by (simp add: sixSlides_fields)

text \<open>
  Claim C6. Without \<open>loop\<close>, at the upper bound \<open>currentSlide = slideCount - slidesPerView\<close>,
  \<open>nextSlide\<close> leaves \<open>currentSlide\<close> unchanged and still calls \<open>change\<close> on every
  registered plugin exactly once, in registration order.
\<close>

theorem nextSlide_at_bound_notifies:
  assumes "\<not> loop s" and "currentSlide s = slideCount s - slidesPerView s"
  shows "currentSlide (nextSlide s) = currentSlide s \<and>
         trace (nextSlide s) =
           trace s @ [Transition (speed s), Transform (slideOffset s)]
                   @ map Change (plugins s)"
proof -
  from assms have "nextSlide s = handleChangeSlide s"
    by (simp add: nextSlide_def)
  then show ?thesis
    by (simp add: handleChangeSlide_fields trace_handleChangeSlide)
qed

theorem nextSlide_at_bound_notifies_witness:
  "\<not> loop (sixSlides\<lparr>currentSlide := 3\<rparr>) \<and>
   currentSlide (sixSlides\<lparr>currentSlide := 3\<rparr>) =
     slideCount (sixSlides\<lparr>currentSlide := 3\<rparr>) - slidesPerView (sixSlides\<lparr>currentSlide := 3\<rparr>) \<and>
   currentSlide (nextSlide (sixSlides\<lparr>currentSlide := 3\<rparr>)) = 3 \<and>
   trace (nextSlide (sixSlides\<lparr>currentSlide := 3\<rparr>)) =
     [Transition 500, Transform (Some 960),
      Change (Pagination defaultPagination), Change (Navigation defaultNavigation)]"
proof -
  have h1: "\<not> loop (sixSlides\<lparr>currentSlide := 3\<rparr>)"
    by (simp add: sixSlides_fields)
  have h2: "currentSlide (sixSlides\<lparr>currentSlide := 3\<rparr>) =
     slideCount (sixSlides\<lparr>currentSlide := 3\<rparr>) - slidesPerView (sixSlides\<lparr>currentSlide := 3\<rparr>)"
    by (simp add: sixSlides_fields update_fields)
  show ?thesis
    using h1 h2 nextSlide_at_bound_notifies [OF h1 h2]
    by (simp add: sixSlides_fields update_fields slideOffset_def slideStep_def)
qed


subsection \<open>Bounds of the index\<close>

lemma navigate_fields:
  "loop (navigate c s) = loop s"
  "slideCount (navigate c s) = slideCount s"
  "slidesPerView (navigate c s) = slidesPerView s"
  by (cases c; simp add: loop_nextSlide loop_previousSlide slideCount_nextSlide
        slideCount_previousSlide slidesPerView_nextSlide slidesPerView_previousSlide)+

lemma navigateAll_fields:
  "loop (navigateAll cs s) = loop s \<and> slideCount (navigateAll cs s) = slideCount s \<and>
   slidesPerView (navigateAll cs s) = slidesPerView s"
  by (induction cs arbitrary: s) (simp_all add: navigate_fields)

lemma inBounds_navigate:
  assumes "\<not> loop s" and "inBounds s"
  shows "inBounds (navigate c s)"
proof (cases c)
  case Next
  with assms show ?thesis
    by (auto simp: inBounds_def currentSlide_nextSlide slideCount_nextSlide
          slidesPerView_nextSlide)
next
  case Previous
  with assms show ?thesis
    by (auto simp: inBounds_def currentSlide_previousSlide slideCount_previousSlide
          slidesPerView_previousSlide)
qed

lemma inBounds_navigateAll:
  "\<not> loop s \<Longrightarrow> inBounds s \<Longrightarrow> inBounds (navigateAll cs s)"
proof (induction cs arbitrary: s)
  case Nil
  then show ?case by simp
next
  case (Cons c cs)
  have "\<not> loop (navigate c s)" using Cons.prems(1) by (simp add: navigate_fields)
  moreover have "inBounds (navigate c s)" using Cons.prems by (rule inBounds_navigate)
  ultimately show ?case by (simp add: Cons.IH)
qed

text \<open>
  Claim C1, as amended. Without \<open>loop\<close>, from a state with
  \<open>0 \<le> currentSlide \<le> max 0 (slideCount - slidesPerView)\<close>, every sequence of
  \<open>nextSlide\<close> and \<open>previousSlide\<close> calls keeps these bounds; no \<open>previousSlide\<close> call
  gives \<open>currentSlide < 0\<close>; and, when \<open>slidesPerView \<le> slideCount\<close>, no \<open>nextSlide\<close>
  call gives \<open>currentSlide > slideCount - slidesPerView\<close>.
\<close>

theorem nonloop_bounds_preserved:
  assumes "\<not> loop s"
    and "0 \<le> currentSlide s"
    and "currentSlide s \<le> max 0 (slideCount s - slidesPerView s)"
  shows "0 \<le> currentSlide (navigateAll cs s) \<and>
         currentSlide (navigateAll cs s) \<le> max 0 (slideCount s - slidesPerView s) \<and>
         slideCount (navigateAll cs s) = slideCount s \<and>
         slidesPerView (navigateAll cs s) = slidesPerView s \<and>
         0 \<le> currentSlide (previousSlide (navigateAll cs s)) \<and>
         (slidesPerView s \<le> slideCount s \<longrightarrow>
            currentSlide (nextSlide (navigateAll cs s)) \<le> slideCount s - slidesPerView s)"
proof -
  let ?t = "navigateAll cs s"
  from assms(2,3) have "inBounds s" by (simp add: inBounds_def)
  with assms(1) have b: "inBounds ?t" by (rule inBounds_navigateAll)
  have l: "\<not> loop ?t" and n: "slideCount ?t = slideCount s"
    and v: "slidesPerView ?t = slidesPerView s"
    using assms(1) navigateAll_fields [of cs s] by simp_all
  have p: "inBounds (navigate Previous ?t)" using l b by (rule inBounds_navigate)
  have x: "inBounds (navigate Next ?t)" using l b by (rule inBounds_navigate)
  from p have "0 \<le> currentSlide (previousSlide ?t)" by (simp add: inBounds_def)
  moreover from x n v have "slidesPerView s \<le> slideCount s \<longrightarrow>
      currentSlide (nextSlide ?t) \<le> slideCount s - slidesPerView s"
    by (auto simp: inBounds_def slideCount_nextSlide slidesPerView_nextSlide)
  ultimately show ?thesis using b n v by (simp add: inBounds_def)
qed

theorem nonloop_bounds_preserved_witness:
  "\<not> loop sixSlides \<and> 0 \<le> currentSlide sixSlides \<and>
   currentSlide sixSlides \<le> max 0 (slideCount sixSlides - slidesPerView sixSlides) \<and>
   currentSlide (navigateAll [Next, Next, Next, Next, Previous] sixSlides) \<in> {0 .. 3} \<and>
   0 \<le> currentSlide (previousSlide (navigateAll [Next, Next, Next, Next, Previous] sixSlides)) \<and>
   slidesPerView sixSlides \<le> slideCount sixSlides \<and>
   currentSlide (nextSlide (navigateAll [Next, Next, Next, Next, Previous] sixSlides)) \<le> 3"
proof -
  have h1: "\<not> loop sixSlides" by (simp add: sixSlides_fields)
  have h2: "0 \<le> currentSlide sixSlides" by (simp add: sixSlides_fields)
  have h3: "currentSlide sixSlides \<le> max 0 (slideCount sixSlides - slidesPerView sixSlides)"
    by (simp add: sixSlides_fields)
  show ?thesis
    using h1 h2 h3
      nonloop_bounds_preserved [OF h1 h2 h3, of "[Next, Next, Next, Next, Previous]"]
    by (simp add: sixSlides_fields)
qed

text \<open>
  With two slides and three per view the index \<open>0\<close> is within the bounds, and after
  \<open>nextSlide\<close> it is still \<open>0\<close>, which is above \<open>slideCount - slidesPerView = -1\<close>.
\<close>

theorem next_bound_counterexample:
  "\<not> loop twoSlides \<and> 0 \<le> currentSlide twoSlides \<and>
   currentSlide twoSlides \<le> max 0 (slideCount twoSlides - slidesPerView twoSlides) \<and>
   currentSlide (nextSlide twoSlides) = 0 \<and>
   slideCount twoSlides - slidesPerView twoSlides = - 1 \<and>
   currentSlide (nextSlide twoSlides) > slideCount twoSlides - slidesPerView twoSlides"
  by (simp add: currentSlide_nextSlide twoSlides_fields)

text \<open>
  Claim C4. With \<open>loop\<close>, from a state with \<open>currentSlide\<close> in
  \<open>[0, slideCount - slidesPerView]\<close>, the index after \<open>nextSlide\<close> and after
  \<open>previousSlide\<close> lies in the same interval, for every slide count of the page.
\<close>

theorem loop_stays_in_range:
  assumes "loop s" and "0 \<le> currentSlide s" and "currentSlide s \<le> slideCount s - slidesPerView s"
  shows "0 \<le> currentSlide (nextSlide s) \<and>
         currentSlide (nextSlide s) \<le> slideCount (nextSlide s) - slidesPerView (nextSlide s) \<and>
         0 \<le> currentSlide (previousSlide s) \<and>
         currentSlide (previousSlide s) \<le> slideCount (previousSlide s) - slidesPerView (previousSlide s)"
  using assms
  by (simp add: currentSlide_nextSlide currentSlide_previousSlide slideCount_nextSlide
        slideCount_previousSlide slidesPerView_nextSlide slidesPerView_previousSlide)

theorem loop_stays_in_range_witness:
  "loop (sixSlides\<lparr>currentSlide := 3, loop := True\<rparr>) \<and>
   currentSlide (nextSlide (sixSlides\<lparr>currentSlide := 3, loop := True\<rparr>)) \<in> {0 .. 3} \<and>
   currentSlide (previousSlide (sixSlides\<lparr>currentSlide := 3, loop := True\<rparr>)) \<in> {0 .. 3}"
proof -
  let ?s = "sixSlides\<lparr>currentSlide := 3, loop := True\<rparr>"
  have h1: "loop ?s" by simp
  have h2: "0 \<le> currentSlide ?s" by simp
  have h3: "currentSlide ?s \<le> slideCount ?s - slidesPerView ?s"
    by (simp add: sixSlides_fields update_fields)
  show ?thesis
    using loop_stays_in_range [OF h1 h2 h3]
    by (simp add: sixSlides_fields update_fields slideCount_nextSlide
          slideCount_previousSlide slidesPerView_nextSlide slidesPerView_previousSlide)
qed


subsection \<open>Markers generated by the Pagination plugin\<close>

lemma length_eachMarker: "length (eachMarker sel active cur i ms) = length ms"
  by (induction ms arbitrary: i) (simp_all split: option.splits)



lemma length_bindClicks: "length (bindClicks sel active i ms) = length ms"
  by (induction ms arbitrary: i) simp_all




text \<open>With the item class undefined the first \<open>changeActiveState\<close> of the loop throws.\<close>

lemma paginationInit_TypeError:
  assumes "boundItemClass c = None" and "0 < markerCount s" and "markerCount s \<le> 4294967295"
  shows "paginationInit c s = Inl TypeError"
proof -
  from assms(2) have "0 < nat (markerCount s)" by simp
  then have "[0 ..< nat (markerCount s)] = 0 # [Suc 0 ..< nat (markerCount s)]"
    by (simp add: upt_conv_Cons)
  then have "appendMarkers c [0 ..< nat (markerCount s)] s = Inl TypeError"
    using assms(1) by (simp add: changeActiveState_def getSelectorFromClass_def)
  with assms(2,3) show ?thesis by (simp add: paginationInit_def Let_def)
qed




subsection \<open>Initialisation with a negative marker count\<close>

lemma frame_markerCount: "frame s s' \<Longrightarrow> markerCount s' = markerCount s"
  by (simp add: frame_def markerCount_def slideCount_def)

lemma frame_navigationInit: "frame s (navigationInit opts s)"
  by (simp add: frame_def navigationInit_def changeDisabledState_def)

lemma paginationInit_RangeError:
  "markerCount s < 0 \<Longrightarrow> paginationInit c s = Inl RangeError"
  by (simp add: paginationInit_def)

lemma initAll_RangeError:
  "markerCount s < 0 \<Longrightarrow> Pagination opts \<in> set ps \<Longrightarrow> initAll ps s = Inl RangeError"
proof (induction ps arbitrary: s)
  case Nil
  then show ?case by simp
next
  case (Cons p ps)
  show ?case
  proof (cases p)
    case (Pagination o')
    have "markerCount (emit [Init (Pagination o')] s) = markerCount s"
      by (rule frame_markerCount [OF frame_emit])
    with Cons.prems(1) have "paginationInit (closure o') (emit [Init (Pagination o')] s) = Inl RangeError"
      by (simp add: paginationInit_RangeError)
    with Pagination show ?thesis by simp
  next
    case (Navigation o')
    let ?t = "navigationInit o' (emit [Init (Navigation o')] s)"
    have "frame s ?t"
      by (rule frame_trans [OF frame_emit frame_navigationInit])
    then have "markerCount ?t < 0"
      using Cons.prems(1) by (simp add: frame_markerCount)
    moreover have "Pagination opts \<in> set ps"
      using Cons.prems(2) Navigation by simp
    ultimately have "initAll ps ?t = Inl RangeError" by (rule Cons.IH)
    with Navigation show ?thesis by simp
  qed
qed

lemma init_RangeError:
  assumes "markerCount s < 0" and "Pagination opts \<in> set (plugins s)"
  shows "init s = Inl RangeError"
proof -
  let ?s1 = "emit (map (\<lambda>i. SlideStyle i (flexBasis s) (spaceBetween s / 2))
                         [0 ..< length (slides s)]) s"
  let ?s2 = "emit [WrapperMargin (spaceBetween s / 2), Transform (slideOffset ?s1)] ?s1"
  let ?s3 = "if draggable ?s2 then ?s2\<lparr>dragBound := True\<rparr> else ?s2"
  have "frame s ?s2" by (rule frame_trans [OF frame_emit frame_emit])
  moreover have "frame ?s2 ?s3" by (simp add: frame_def)
  ultimately have f: "frame s ?s3" by (rule frame_trans)
  then have "markerCount ?s3 < 0" using assms(1) by (simp add: frame_markerCount)
  moreover have "Pagination opts \<in> set (plugins ?s3)"
    using f assms(2) by (simp add: frame_def)
  ultimately have "initAll (plugins ?s3) ?s3 = Inl RangeError" by (rule initAll_RangeError)
  then show ?thesis by (simp add: init_def Let_def)
qed

text \<open>
  Claim C10. Whenever \<open>slideCount - slidesPerView + 1\<close> is negative, \<open>init\<close> of the
  Pagination plugin (whatever the factory was given) fails with the invalid-array-length \<open>RangeError\<close> instead of generating
  zero markers, and so do \<open>init\<close> and the constructor of a slider that has such a plugin
  registered.
\<close>

theorem pagination_negative_count_fails:
  assumes "slideCount s - slidesPerView s + 1 < 0"
  shows "paginationInit c s = Inl RangeError \<and>
         (Pagination opts \<in> set (plugins s) \<longrightarrow>
            init s = Inl RangeError \<and> Slider s = Inl RangeError)"
proof -
  from assms have n: "markerCount s < 0" by (simp add: markerCount_def)
  then have "markerCount (s\<lparr>currentSlide := defaultIndex s\<rparr>) < 0"
    by (simp add: markerCount_def slideCount_def)
  then have "Pagination opts \<in> set (plugins s) \<Longrightarrow> Slider s = Inl RangeError"
    unfolding Slider_def by (rule init_RangeError) simp
  with n show ?thesis
    by (simp add: paginationInit_RangeError init_RangeError)
qed

theorem pagination_negative_count_fails_witness:
  "slideCount (sixSlides\<lparr>slides := []\<rparr>) - slidesPerView (sixSlides\<lparr>slides := []\<rparr>) + 1 < 0 \<and>
   Pagination defaultPagination \<in> set (plugins (sixSlides\<lparr>slides := []\<rparr>)) \<and>
   paginationInit (closure defaultPagination) (sixSlides\<lparr>slides := []\<rparr>) = Inl RangeError \<and>
   Slider (sixSlides\<lparr>slides := []\<rparr>) = Inl RangeError"
proof -
  let ?s = "sixSlides\<lparr>slides := []\<rparr>"
  have h: "slideCount ?s - slidesPerView ?s + 1 < 0"
    by (simp add: sixSlides_def noPage_def slideCount_def)
  have p: "Pagination defaultPagination \<in> set (plugins ?s)"
    by (simp add: sixSlides_def)
  show ?thesis
    using h p pagination_negative_count_fails [OF h, of "closure defaultPagination" defaultPagination]
    by simp
qed


subsection \<open>Auto-play firing\<close>

lemma handleAutoPlay_fields:
  "currentSlide (handleAutoPlay s) = currentSlide s"
  "timers (handleAutoPlay s) = timers s @ [duration s]"
  "trace (handleAutoPlay s) = trace s"
  by (simp_all add: handleAutoPlay_def)

lemma changeSlide_fields:
  "timers (changeSlide i s) = timers s"
  "duration (changeSlide i s) = duration s"
  by (simp_all add: changeSlide_def handleChangeSlide_fields)

text \<open>
  Claim C8, as amended. When a pending auto-play timeout fires: with \<open>autoPlay\<close> false
  nothing changes and no timeout is scheduled; with \<open>autoPlay\<close> true the controller calls
  \<open>nextSlide\<close> if \<open>currentSlide < slideCount - slidesPerView\<close> and \<open>changeSlide 0\<close>
  otherwise (at the last valid index or beyond it), whatever \<open>loop\<close> is, and schedules a
  new timeout after \<open>duration\<close>.
\<close>

theorem autoPlay_timer_firing:
  assumes "timers s = d # ts"
  shows "(\<not> autoPlay s \<longrightarrow> fireTimer s = s\<lparr>timers := ts\<rparr>) \<and>
         (autoPlay s \<longrightarrow>
            fireTimer s =
              handleAutoPlay
                (if currentSlide s < slideCount s - slidesPerView s
                 then nextSlide (s\<lparr>timers := ts\<rparr>)
                 else changeSlide 0 (s\<lparr>timers := ts\<rparr>)) \<and>
            currentSlide (fireTimer s) =
              (if currentSlide s < slideCount s - slidesPerView s then currentSlide s + 1 else 0) \<and>
            timers (fireTimer s) = ts @ [duration s])"
proof -
  let ?t = "s\<lparr>timers := ts\<rparr>"
  have c: "slideCount ?t = slideCount s" by (simp add: slideCount_def)
  have f: "fireTimer s = autoPlayCallback ?t"
    using assms by (simp add: fireTimer_def)
  have off: "\<not> autoPlay s \<Longrightarrow> autoPlayCallback ?t = ?t"
    by (simp add: autoPlayCallback_def)
  have on: "autoPlay s \<Longrightarrow> autoPlayCallback ?t =
      handleAutoPlay (if currentSlide s < slideCount s - slidesPerView s
                      then nextSlide ?t else changeSlide 0 ?t)"
    by (simp add: autoPlayCallback_def c)
  have cur: "autoPlay s \<Longrightarrow> currentSlide (autoPlayCallback ?t) =
      (if currentSlide s < slideCount s - slidesPerView s then currentSlide s + 1 else 0)"
    by (simp add: on handleAutoPlay_fields currentSlide_nextSlide currentSlide_changeSlide c)
  have tm: "autoPlay s \<Longrightarrow> timers (autoPlayCallback ?t) = ts @ [duration s]"
    by (simp add: on handleAutoPlay_fields nextSlide_changeSlide changeSlide_fields)
  show ?thesis
    using off on cur tm by (simp only: f) simp
qed

theorem autoPlay_timer_firing_witness:
  "timers (sixSlides\<lparr>timers := [5000]\<rparr>) = [5000] \<and>
   fireTimer (sixSlides\<lparr>timers := [5000]\<rparr>) = sixSlides \<and>
   currentSlide (fireTimer (sixSlides\<lparr>timers := [5000], autoPlay := True\<rparr>)) = 1 \<and>
   currentSlide (fireTimer (sixSlides\<lparr>timers := [5000], autoPlay := True, currentSlide := 3\<rparr>)) = 0 \<and>
   timers (fireTimer (sixSlides\<lparr>timers := [5000], autoPlay := True\<rparr>)) = [5000]"
proof -
  have h1: "timers (sixSlides\<lparr>timers := [5000]\<rparr>) = 5000 # []" by simp
  have h2: "timers (sixSlides\<lparr>timers := [5000], autoPlay := True\<rparr>) = 5000 # []" by simp
  have h3: "timers (sixSlides\<lparr>timers := [5000], autoPlay := True, currentSlide := 3\<rparr>) = 5000 # []"
    by simp
  have e: "sixSlides\<lparr>timers := []\<rparr> = sixSlides"
    by (simp add: sixSlides_def noPage_def)
  have a2: "autoPlay (sixSlides\<lparr>timers := [5000], autoPlay := True\<rparr>)" by simp
  have a3: "autoPlay (sixSlides\<lparr>timers := [5000], autoPlay := True, currentSlide := 3\<rparr>)" by simp
  note w2 = autoPlay_timer_firing [OF h2, THEN conjunct2, THEN mp, OF a2, THEN conjunct2]
  note w3 = autoPlay_timer_firing [OF h3, THEN conjunct2, THEN mp, OF a3, THEN conjunct2]
  show ?thesis
    using autoPlay_timer_firing [OF h1, THEN conjunct1] w2 w3
    by (simp add: sixSlides_fields update_fields e)
qed

text \<open>
  Six slides, three per view, no \<open>loop\<close>, index \<open>5\<close>: the index is not the last valid
  one (\<open>3\<close>), \<open>nextSlide\<close> would leave it at \<open>5\<close>, and the firing sets it to \<open>0\<close>.
\<close>

theorem autoPlay_beyond_last_counterexample:
  "autoPlay (sixSlides\<lparr>timers := [5000], autoPlay := True, currentSlide := 5\<rparr>) \<and>
   \<not> loop (sixSlides\<lparr>timers := [5000], autoPlay := True, currentSlide := 5\<rparr>) \<and>
   slideCount (sixSlides\<lparr>timers := [5000], autoPlay := True, currentSlide := 5\<rparr>)
     - slidesPerView (sixSlides\<lparr>timers := [5000], autoPlay := True, currentSlide := 5\<rparr>) = 3 \<and>
   currentSlide (sixSlides\<lparr>timers := [5000], autoPlay := True, currentSlide := 5\<rparr>) = 5 \<and>
   currentSlide (nextSlide (sixSlides\<lparr>timers := [], autoPlay := True, currentSlide := 5\<rparr>)) = 5 \<and>
   currentSlide (fireTimer (sixSlides\<lparr>timers := [5000], autoPlay := True, currentSlide := 5\<rparr>)) = 0"
  by (simp add: fireTimer_def autoPlayCallback_def handleAutoPlay_fields currentSlide_nextSlide
        currentSlide_changeSlide sixSlides_fields update_fields)

subsection \<open>Releasing a drag\<close>

lemma releaseBranch_Advance:
  "releaseBranch s = Advance \<longleftrightarrow>
     (case outerWidth s of None \<Rightarrow> False | Some w \<Rightarrow> w / 3 < distance s) \<and>
     (loop s \<or> currentSlide s < slideCount s - slidesPerView s)"
  by (simp add: releaseBranch_def exceedsThird_def Let_def split: option.splits)

lemma releaseBranch_Retreat:
  "releaseBranch s = Retreat \<longleftrightarrow>
     releaseBranch s \<noteq> Advance \<and>
     (case outerWidth s of None \<Rightarrow> False | Some w \<Rightarrow> w / 3 < - distance s) \<and>
     (loop s \<or> 0 < currentSlide s)"
  by (simp add: releaseBranch_def exceedsThird_def Let_def split: option.splits)

text \<open>
  Claim C9, as amended. On \<open>mouseup\<close>, \<open>nextSlide\<close> is called if and only if \<open>distance\<close>
  exceeds a third of the outer width of the first slide (the gap \<open>spaceBetween\<close> not
  included) and \<open>loop\<close> holds or \<open>currentSlide < slideCount - slidesPerView\<close>;
  \<open>previousSlide\<close> is called if and only if that is not the case, \<open>-distance\<close> exceeds the
  same third, and \<open>loop\<close> holds or \<open>currentSlide > 0\<close>; otherwise the strip is put back at
  the current offset, \<open>currentSlide\<close> is unchanged and the change protocol does not run.
\<close>

theorem mouseup_decision:
  "(releaseBranch s = Advance \<longleftrightarrow>
      (case outerWidth s of None \<Rightarrow> False | Some w \<Rightarrow> w / 3 < distance s) \<and>
      (loop s \<or> currentSlide s < slideCount s - slidesPerView s)) \<and>
   (releaseBranch s = Retreat \<longleftrightarrow>
      releaseBranch s \<noteq> Advance \<and>
      (case outerWidth s of None \<Rightarrow> False | Some w \<Rightarrow> w / 3 < - distance s) \<and>
      (loop s \<or> 0 < currentSlide s)) \<and>
   (releaseBranch s = Advance \<longrightarrow>
      mouseup s = (nextSlide s)\<lparr>isPressed := False, startPos := 0, distance := 0\<rparr>) \<and>
   (releaseBranch s = Retreat \<longrightarrow>
      mouseup s = (previousSlide s)\<lparr>isPressed := False, startPos := 0, distance := 0\<rparr>) \<and>
   (releaseBranch s = SnapBack \<longrightarrow>
      currentSlide (mouseup s) = currentSlide s \<and>
      trace (mouseup s) = trace s @ [Transform (slideOffset s)])"
proof -
  have a: "releaseBranch s = Advance \<longrightarrow>
      mouseup s = (nextSlide s)\<lparr>isPressed := False, startPos := 0, distance := 0\<rparr>"
    by (simp add: mouseup_def)
  have r: "releaseBranch s = Retreat \<longrightarrow>
      mouseup s = (previousSlide s)\<lparr>isPressed := False, startPos := 0, distance := 0\<rparr>"
    by (simp add: mouseup_def)
  have b: "releaseBranch s = SnapBack \<longrightarrow>
      currentSlide (mouseup s) = currentSlide s \<and>
      trace (mouseup s) = trace s @ [Transform (slideOffset s)]"
    by (simp add: mouseup_def emit_def)
  from a r b releaseBranch_Advance [of s] releaseBranch_Retreat [of s]
  show ?thesis by blast
qed


theorem mouseup_decision_witness:
  "releaseBranch (sixSlides\<lparr>distance := 150\<rparr>) = Advance \<and>
   currentSlide (mouseup (sixSlides\<lparr>distance := 150\<rparr>)) = 1 \<and>
   releaseBranch (sixSlides\<lparr>distance := - 150, currentSlide := 2\<rparr>) = Retreat \<and>
   currentSlide (mouseup (sixSlides\<lparr>distance := - 150, currentSlide := 2\<rparr>)) = 1 \<and>
   releaseBranch (sixSlides\<lparr>distance := 50\<rparr>) = SnapBack \<and>
   currentSlide (mouseup (sixSlides\<lparr>distance := 50\<rparr>)) = 0 \<and>
   trace (mouseup (sixSlides\<lparr>distance := 50\<rparr>)) = [Transform (Some 0)]"
proof -
  let ?a = "sixSlides\<lparr>distance := 150\<rparr>"
  let ?r = "sixSlides\<lparr>distance := - 150, currentSlide := 2\<rparr>"
  let ?b = "sixSlides\<lparr>distance := 50\<rparr>"
  have a: "releaseBranch ?a = Advance"
    using mouseup_decision [of ?a, THEN conjunct1]
    by (simp add: sixSlides_fields update_fields)
  have r: "releaseBranch ?r = Retreat"
    using mouseup_decision [of ?r, THEN conjunct1]
          mouseup_decision [of ?r, THEN conjunct2, THEN conjunct1]
    by (simp add: sixSlides_fields update_fields)
  have b: "releaseBranch ?b = SnapBack"
    using mouseup_decision [of ?b, THEN conjunct1]
          mouseup_decision [of ?b, THEN conjunct2, THEN conjunct1]
    by (cases "releaseBranch ?b") (simp_all add: sixSlides_fields update_fields)
  have "currentSlide (mouseup ?a) = 1"
    using mouseup_decision [of ?a, THEN conjunct2, THEN conjunct2, THEN conjunct1, THEN mp, OF a]
    by (simp add: currentSlide_nextSlide sixSlides_fields update_fields)
  moreover have "currentSlide (mouseup ?r) = 1"
    using mouseup_decision [of ?r, THEN conjunct2, THEN conjunct2, THEN conjunct2,
                            THEN conjunct1, THEN mp, OF r]
    by (simp add: currentSlide_previousSlide sixSlides_fields update_fields)
  moreover have "currentSlide (mouseup ?b) = 0 \<and> trace (mouseup ?b) = [Transform (Some 0)]"
    using mouseup_decision [of ?b, THEN conjunct2, THEN conjunct2, THEN conjunct2,
                            THEN conjunct2, THEN mp, OF b]
    by (simp add: sixSlides_fields update_fields slideOffset_def slideStep_def)
  ultimately show ?thesis using a r b by simp
qed

text \<open>
  Slides 300 wide with a gap of 20: a drag of 105 is below a third of 320 and still
  advances. At index \<open>5\<close> of six slides, three per view, a drag of 150 does not advance,
  although the index is not the last valid one; at index \<open>-2\<close> a drag of \<open>-150\<close> does
  not retreat, although the index is not \<open>0\<close>.
\<close>

theorem mouseup_threshold_counterexample:
  "slideStep (sixSlides\<lparr>distance := 105\<rparr>) = Some 320 \<and>
   \<not> 320 / 3 < distance (sixSlides\<lparr>distance := 105\<rparr>) \<and>
   releaseBranch (sixSlides\<lparr>distance := 105\<rparr>) = Advance \<and>
   currentSlide (mouseup (sixSlides\<lparr>distance := 105\<rparr>)) = 1 \<and>
   \<not> loop (sixSlides\<lparr>distance := 150, currentSlide := 5\<rparr>) \<and>
   currentSlide (sixSlides\<lparr>distance := 150, currentSlide := 5\<rparr>) \<noteq>
     slideCount (sixSlides\<lparr>distance := 150, currentSlide := 5\<rparr>)
       - slidesPerView (sixSlides\<lparr>distance := 150, currentSlide := 5\<rparr>) \<and>
   320 / 3 < distance (sixSlides\<lparr>distance := 150, currentSlide := 5\<rparr>) \<and>
   releaseBranch (sixSlides\<lparr>distance := 150, currentSlide := 5\<rparr>) = SnapBack \<and>
   currentSlide (sixSlides\<lparr>distance := - 150, currentSlide := - 2\<rparr>) \<noteq> 0 \<and>
   320 / 3 < - distance (sixSlides\<lparr>distance := - 150, currentSlide := - 2\<rparr>) \<and>
   releaseBranch (sixSlides\<lparr>distance := - 150, currentSlide := - 2\<rparr>) = SnapBack"
  by (simp add: releaseBranch_def exceedsThird_def mouseup_def currentSlide_nextSlide
        slideStep_def sixSlides_fields update_fields)


end
